theory Spec2Isabelle
  imports Main "HOL-Library.List_Lexorder"
begin

section \<open>The module \<^verbatim>\<open>ipfshttpclient/client/__init__.py\<close>\<close>

text \<open>
  Python strings are modelled as \<^typ>\<open>string\<close>, each \<^typ>\<open>char\<close> standing for one
  code point below 256; Python integers are \<^typ>\<open>int\<close>. Exceptions are values of the type
  \<open>error\<close>, and a call returns \<open>Inl e\<close> when it raises \<open>e\<close>, \<open>Inr r\<close> when it returns
  \<open>r\<close>.
\<close>

datatype error =
    ValueError string
  | IndexError
  | KeyError string
  | VersionMismatch "int list" "int list" "int list"
  | ErrorResponse
  | ConnectionError
  | ProtocolError
  | StatusError
  | TimeoutError
  | NameError string
  | AttributeError
  | TypeError

subsection \<open>Built-ins used by the source\<close>

text \<open>
  \<^verbatim>\<open>s.split(sep, maxsplit)\<close> for a one-character separator: the string is cut at each
  occurrence of \<open>sep\<close>, from the left, at most \<open>maxsplit\<close> times; \<open>None\<close> is Python's
  default, no limit. The second argument collects (reversed) the piece being read.
\<close>

fun split_from :: "char \<Rightarrow> nat option \<Rightarrow> string \<Rightarrow> string \<Rightarrow> string list" where
  "split_from sep n acc [] = [rev acc]"
| "split_from sep n acc (c # cs) =
     (if c = sep \<and> n \<noteq> Some 0
      then rev acc # split_from sep (map_option (\<lambda>k. k - 1) n) [] cs
      else split_from sep n (c # acc) cs)"

definition split :: "string \<Rightarrow> char \<Rightarrow> nat option \<Rightarrow> string list" where
  "split s sep maxsplit = split_from sep maxsplit [] s"

text \<open>\<^verbatim>\<open>xs[0]\<close>: the first element, IndexError on the empty list.\<close>

definition item0 :: "'a list \<Rightarrow> error + 'a" where
  "item0 xs = (case xs of [] \<Rightarrow> Inl IndexError | x # _ \<Rightarrow> Inr x)"

text \<open>
  \<^verbatim>\<open>int(s)\<close> on a string, base 10: white space is stripped at both ends, one sign may
  follow, then decimal digits, where single underscores may stand between two digits.
  Below code point 256 the white space \<^verbatim>\<open>int\<close> accepts is \<^verbatim>\<open>\t \n \v \f \r\<close>, the
  space, and the code points 0x85 and 0xA0, and the only decimal digits are \<^verbatim>\<open>0\<close> to
  \<^verbatim>\<open>9\<close>. The result is unbounded, and no limit on the number of digits is modelled.
  The error carries the argument, as the message of Python's ValueError does.
\<close>

definition is_space :: "char \<Rightarrow> bool" where
  "is_space c =
     (let n = (of_char c :: nat) in (9 \<le> n \<and> n \<le> 13) \<or> n = 32 \<or> n = 133 \<or> n = 160)"

definition strip :: "string \<Rightarrow> string" where
  "strip s = rev (dropWhile is_space (rev (dropWhile is_space s)))"

definition digit_val :: "char \<Rightarrow> int option" where
  "digit_val c =
     (let n = (of_char c :: nat) in if 48 \<le> n \<and> n \<le> 57 then Some (int n - 48) else None)"

fun digits_from :: "int \<Rightarrow> string \<Rightarrow> int option" where
  "digits_from acc [] = Some acc"
| "digits_from acc [c] =
     (case digit_val c of None \<Rightarrow> None | Some v \<Rightarrow> Some (10 * acc + v))"
| "digits_from acc (c # d # ds) =
     (if c = CHR ''_''
      then (case digit_val d of
              None \<Rightarrow> None
            | Some v \<Rightarrow> digits_from (10 * acc + v) ds)
      else (case digit_val c of
              None \<Rightarrow> None
            | Some v \<Rightarrow> digits_from (10 * acc + v) (d # ds)))"

definition unsigned_int :: "string \<Rightarrow> int option" where
  "unsigned_int s =
     (case s of
        [] \<Rightarrow> None
      | c # cs \<Rightarrow> (case digit_val c of None \<Rightarrow> None | Some v \<Rightarrow> digits_from v cs))"

definition py_int :: "string \<Rightarrow> error + int" where
  "py_int s =
     (let t = strip s;
          r = (case t of
                 [] \<Rightarrow> None
               | c # cs \<Rightarrow>
                   if c = CHR ''+'' then unsigned_int cs
                   else if c = CHR ''-'' then map_option uminus (unsigned_int cs)
                   else unsigned_int t)
      in case r of None \<Rightarrow> Inl (ValueError s) | Some n \<Rightarrow> Inr n)"

text \<open>
  \<^verbatim>\<open>list(map(int, parts))\<close>: the parts are converted from left to right and the first
  failure is the one raised.
\<close>

fun map_int :: "string list \<Rightarrow> error + int list" where
  "map_int [] = Inr []"
| "map_int (p # ps) =
     (case py_int p of
        Inl e \<Rightarrow> Inl e
      | Inr n \<Rightarrow> (case map_int ps of Inl e \<Rightarrow> Inl e | Inr ns \<Rightarrow> Inr (n # ns)))"

text \<open>
  Python's order on lists and tuples of integers: the first position where the two
  sequences differ decides; when there is none, the lengths are compared.
\<close>

fun seq_gt :: "int list \<Rightarrow> int list \<Rightarrow> bool" where
  "seq_gt (x # xs) (y # ys) = (if x = y then seq_gt xs ys else x > y)"
| "seq_gt (x # xs) [] = True"
| "seq_gt [] ys = False"

fun seq_ge :: "int list \<Rightarrow> int list \<Rightarrow> bool" where
  "seq_ge (x # xs) (y # ys) = (if x = y then seq_ge xs ys else x \<ge> y)"
| "seq_ge xs [] = True"
| "seq_ge [] (y # ys) = False"

fun seq_lt :: "int list \<Rightarrow> int list \<Rightarrow> bool" where
  "seq_lt (x # xs) (y # ys) = (if x = y then seq_lt xs ys else x < y)"
| "seq_lt [] (y # ys) = True"
| "seq_lt xs [] = False"

subsection \<open>\<^verbatim>\<open>assert_version\<close>\<close>

definition VERSION_MINIMUM :: string where
  "VERSION_MINIMUM = ''0.4.21''"

definition VERSION_BLACKLIST :: "string list" where
  "VERSION_BLACKLIST = []"

definition VERSION_MAXIMUM :: string where
  "VERSION_MAXIMUM = ''0.6.0''"

text \<open>
  The expression \<^verbatim>\<open>list(map(int, s.split('-', 1)[0].split('.')))\<close>, which the source
  applies to the version, the minimum, the maximum and each blacklist entry.
\<close>

definition version_tuple :: "string \<Rightarrow> error + int list" where
  "version_tuple s =
     (case item0 (split s CHR ''-'' (Some 1)) of
        Inl e \<Rightarrow> Inl e
      | Inr p \<Rightarrow> map_int (split p CHR ''.'' None))"

text \<open>The loop over the blacklist; it stops at the first entry that raises.\<close>

fun check_blacklist :: "int list \<Rightarrow> int list \<Rightarrow> int list \<Rightarrow> string list \<Rightarrow> error + unit" where
  "check_blacklist version minimum maximum [] = Inr ()"
| "check_blacklist version minimum maximum (blacklisted # rest) =
     (case version_tuple blacklisted of
        Inl e \<Rightarrow> Inl e
      | Inr b \<Rightarrow>
          if version = b then Inl (VersionMismatch version minimum maximum)
          else check_blacklist version minimum maximum rest)"

definition assert_version :: "string \<Rightarrow> string \<Rightarrow> string \<Rightarrow> string list \<Rightarrow> error + unit" where
  "assert_version version minimum maximum blacklist =
     (case version_tuple version of
        Inl e \<Rightarrow> Inl e
      | Inr v \<Rightarrow>
     (case version_tuple minimum of
        Inl e \<Rightarrow> Inl e
      | Inr lo \<Rightarrow>
     (case version_tuple maximum of
        Inl e \<Rightarrow> Inl e
      | Inr hi \<Rightarrow>
          if seq_gt lo v \<or> seq_ge v hi then Inl (VersionMismatch v lo hi)
          else check_blacklist v lo hi blacklist)))"

text \<open>
  The wording of the specification, for comparison with the code: a string is malformed
  when some dot-separated component of its part before the first \<^verbatim>\<open>-\<close> is not accepted
  by \<^verbatim>\<open>int\<close>.
\<close>

definition numeric_prefix :: "string \<Rightarrow> string" where
  "numeric_prefix s = takeWhile (\<lambda>c. c \<noteq> CHR ''-'') s"

definition malformed :: "string \<Rightarrow> bool" where
  "malformed s = list_ex (\<lambda>p. isl (py_int p)) (split (numeric_prefix s) CHR ''.'' None)"

definition is_ValueError :: "error + 'a \<Rightarrow> bool" where
  "is_ValueError r = (case r of Inl (ValueError _) \<Rightarrow> True | _ \<Rightarrow> False)"

definition is_VersionMismatch :: "error + 'a \<Rightarrow> bool" where
  "is_VersionMismatch r = (case r of Inl (VersionMismatch _ _ _) \<Rightarrow> True | _ \<Rightarrow> False)"

section \<open>The client\<close>

text \<open>
  Modelled from the spec: the HTTP client behind \<^verbatim>\<open>Client._client\<close>, whose class is
  not in the source file. The specification gives the client "an optional open session
  (pooled connection handle)". A handle is a number.
\<close>

record http_client =
  session :: "nat option"

text \<open>
  Modelled from the spec: \<^verbatim>\<open>open_session\<close>, not in the source file. "Entering a session
  context opens a pooled connection"; the handle of the new session is an argument.
\<close>

definition open_session :: "nat \<Rightarrow> http_client \<Rightarrow> http_client" where
  "open_session h hc = hc\<lparr>session := Some h\<rparr>"

text \<open>
  Modelled from the spec: \<^verbatim>\<open>close_session\<close>, not in the source file. The session is
  "released on close", and "closing when none is open is a no-op".
\<close>

definition close_session :: "http_client \<Rightarrow> http_client" where
  "close_session hc = (case session hc of None \<Rightarrow> hc | Some h \<Rightarrow> hc\<lparr>session := None\<rparr>)"

text \<open>
  The \<^verbatim>\<open>Client\<close> object: the attributes \<^verbatim>\<open>_client\<close> and \<^verbatim>\<open>_workarounds\<close> that the
  source file reads and writes, and the chunk size it passes on.
\<close>

record client =
  chunk_size :: nat
  http :: http_client
  workarounds :: "string set"

text \<open>\<^verbatim>\<open>__enter__\<close> opens a session and returns the client itself.\<close>

definition Client_enter :: "nat \<Rightarrow> client \<Rightarrow> client" where
  "Client_enter h self = self\<lparr>http := open_session h (http self)\<rparr>"

definition Client_close :: "client \<Rightarrow> client" where
  "Client_close self = self\<lparr>http := close_session (http self)\<rparr>"

text \<open>
  \<^verbatim>\<open>__exit__\<close> ignores its three arguments and calls \<^verbatim>\<open>close\<close>. It returns
  \<^verbatim>\<open>None\<close>, so an exception of the scope is not suppressed: the second component
  is the truth value of its result.
\<close>

definition Client_exit :: "client \<Rightarrow> 'e option \<Rightarrow> 'v option \<Rightarrow> 't option \<Rightarrow> client \<times> bool" where
  "Client_exit self exc_type exc_value traceback = (Client_close self, False)"

text \<open>
  \<^verbatim>\<open>with client: body\<close>: the scope is entered, the body runs on the client and ends
  normally (\<open>Inr\<close>) or with an exception (\<open>Inl\<close>), and \<^verbatim>\<open>__exit__\<close> is called
  with the exception, or with \<^verbatim>\<open>None\<close> three times. The outcome of the statement is the
  body's, unless \<^verbatim>\<open>__exit__\<close> suppresses the exception.
\<close>

definition with_client ::
  "nat \<Rightarrow> (client \<Rightarrow> (error + 'r) \<times> client) \<Rightarrow> client \<Rightarrow> (error + 'r option) \<times> client" where
  "with_client h body self =
     (let entered = Client_enter h self;
          (outcome, after) = body entered
      in case outcome of
           Inr r \<Rightarrow>
             (Inr (Some r),
              fst (Client_exit after (None :: error option) (None :: error option) (None :: unit option)))
         | Inl e \<Rightarrow>
             (let (left, suppress) = Client_exit after (Some e) (Some e) (Some ())
              in (if suppress then Inr None else Inl e, left)))"

subsection \<open>\<^verbatim>\<open>connect\<close>\<close>

text \<open>
  The constructor of \<^verbatim>\<open>Client\<close> and the method \<^verbatim>\<open>version\<close> are not in the source
  file; \<open>connect\<close> takes what they do as arguments: \<open>new_client\<close> is the outcome of
  \<^verbatim>\<open>Client(addr, base, ...)\<close>, and \<open>version client\<close> the outcome of the version query,
  a dictionary from strings to strings when the daemon answers.
\<close>

definition connect ::
  "(error + client) \<Rightarrow> (client \<Rightarrow> error + (string \<rightharpoonup> string)) \<Rightarrow> error + client" where
  "connect new_client version =
     (case new_client of
        Inl e \<Rightarrow> Inl e
      | Inr client \<Rightarrow>
     (case version client of
        Inl e \<Rightarrow> Inl e
      | Inr reply \<Rightarrow>
     (case reply ''Version'' of
        None \<Rightarrow> Inl (KeyError ''Version'')
      | Some version_str \<Rightarrow>
     (case assert_version version_str VERSION_MINIMUM VERSION_MAXIMUM VERSION_BLACKLIST of
        Inl e \<Rightarrow> Inl e
      | Inr _ \<Rightarrow>
     (case version_tuple version_str of
        Inl e \<Rightarrow> Inl e
      | Inr v \<Rightarrow>
          Inr (if seq_lt v [0, 5]
               then client\<lparr>workarounds :=
                      insert ''use_http_head_for_no_result'' (workarounds client)\<rparr>
               else client))))))"

section \<open>\<^verbatim>\<open>assert_version\<close>, statement by statement\<close>

text \<open>
  The state a call can reach: the local names of the running function, the module's
  global names, the list objects (the blacklist is one: Python passes it by reference,
  and the default argument is the list bound to \<^verbatim>\<open>VERSION_BLACKLIST\<close>), the clients,
  and the requests sent to the daemon so far. A name is bound to a string, to a list of
  integers that the function built itself, or to the address of a list object.
\<close>

datatype pyval = Str string | Ints "int list" | Ref nat

record pystate =
  locals :: "string \<rightharpoonup> pyval"
  globals :: "string \<rightharpoonup> pyval"
  heap :: "nat \<rightharpoonup> string list"
  clients :: "nat \<rightharpoonup> client"
  requests :: "string list"

text \<open>
  A statement runs on a state and returns or raises, with the state it leaves.
  \<open>andthen\<close> is the sequence of two statements: the second does not run when the
  first raises.
\<close>

type_synonym 'a stmt = "pystate \<Rightarrow> (error + 'a) \<times> pystate"

definition ret :: "'a \<Rightarrow> 'a stmt" where
  "ret x s = (Inr x, s)"

definition raise :: "error \<Rightarrow> 'a stmt" where
  "raise e s = (Inl e, s)"

definition andthen :: "'a stmt \<Rightarrow> ('a \<Rightarrow> 'b stmt) \<Rightarrow> 'b stmt" where
  "andthen m f s = (case m s of (Inl e, s') \<Rightarrow> (Inl e, s') | (Inr x, s') \<Rightarrow> f x s')"

text \<open>Reading a local name, and binding one.\<close>

definition load :: "string \<Rightarrow> pyval stmt" where
  "load name s =
     (case locals s name of None \<Rightarrow> (Inl (NameError name), s) | Some v \<Rightarrow> (Inr v, s))"

definition store :: "string \<Rightarrow> pyval \<Rightarrow> unit stmt" where
  "store name v s = (Inr (), s\<lparr>locals := (locals s)(name \<mapsto> v)\<rparr>)"

text \<open>
  The built-ins \<^verbatim>\<open>split\<close>, \<^verbatim>\<open>int\<close>, \<^verbatim>\<open>map\<close>, \<^verbatim>\<open>list\<close> and the comparisons
  compute their result from their arguments and touch no object.
\<close>

definition builtin :: "error + 'a \<Rightarrow> 'a stmt" where
  "builtin r s = (r, s)"

text \<open>
  Names are typed when they are used: the receiver of \<^verbatim>\<open>.split\<close> has to be a string
  (a list has no such attribute), and the model compares and reports lists of integers
  only, TypeError standing for any other operand.
\<close>

definition as_str :: "pyval \<Rightarrow> error + string" where
  "as_str v = (case v of Str x \<Rightarrow> Inr x | _ \<Rightarrow> Inl AttributeError)"

definition as_ints :: "pyval \<Rightarrow> error + int list" where
  "as_ints v = (case v of Ints t \<Rightarrow> Inr t | _ \<Rightarrow> Inl TypeError)"

text \<open>
  The statement \<^verbatim>\<open>name = list(map(int, name.split('-', 1)[0].split('.')))\<close> of lines
  59 to 61 and 67: it binds the local name again, to the list it built.
\<close>

definition convert :: "string \<Rightarrow> unit stmt" where
  "convert name =
     andthen (load name) (\<lambda>obj.
     andthen (builtin (as_str obj)) (\<lambda>x.
     andthen (builtin (item0 (split x CHR ''-'' (Some 1)))) (\<lambda>p.
     andthen (builtin (map_int (split p CHR ''.'' None))) (\<lambda>t.
     store name (Ints t)))))"

definition compare_gt :: "string \<Rightarrow> string \<Rightarrow> bool stmt" where
  "compare_gt a b =
     andthen (load a) (\<lambda>x.
     andthen (load b) (\<lambda>y.
     andthen (builtin (as_ints x)) (\<lambda>xs.
     andthen (builtin (as_ints y)) (\<lambda>ys.
     ret (seq_gt xs ys)))))"

definition compare_ge :: "string \<Rightarrow> string \<Rightarrow> bool stmt" where
  "compare_ge a b =
     andthen (load a) (\<lambda>x.
     andthen (load b) (\<lambda>y.
     andthen (builtin (as_ints x)) (\<lambda>xs.
     andthen (builtin (as_ints y)) (\<lambda>ys.
     ret (seq_ge xs ys)))))"

definition compare_eq :: "string \<Rightarrow> string \<Rightarrow> bool stmt" where
  "compare_eq a b = andthen (load a) (\<lambda>x. andthen (load b) (\<lambda>y. ret (x = y)))"

text \<open>The condition \<^verbatim>\<open>minimum > version or version >= maximum\<close> of line 63.\<close>

definition out_of_range :: "bool stmt" where
  "out_of_range =
     andthen (compare_gt ''minimum'' ''version'') (\<lambda>below.
     if below then ret True else compare_ge ''version'' ''maximum'')"

text \<open>\<^verbatim>\<open>raise exceptions.VersionMismatch(version, minimum, maximum)\<close>, lines 64 and 69.\<close>

definition raise_mismatch :: "unit stmt" where
  "raise_mismatch =
     andthen (load ''version'') (\<lambda>a.
     andthen (load ''minimum'') (\<lambda>b.
     andthen (load ''maximum'') (\<lambda>c.
     andthen (builtin (as_ints a)) (\<lambda>v.
     andthen (builtin (as_ints b)) (\<lambda>lo.
     andthen (builtin (as_ints c)) (\<lambda>hi.
     raise (VersionMismatch v lo hi)))))))"

text \<open>The body of the loop, lines 67 to 69, for the entry \<open>x\<close> of the blacklist.\<close>

definition blacklist_item :: "string \<Rightarrow> unit stmt" where
  "blacklist_item x =
     andthen (store ''blacklisted'' (Str x)) (\<lambda>_.
     andthen (convert ''blacklisted'') (\<lambda>_.
     andthen (compare_eq ''version'' ''blacklisted'') (\<lambda>hit.
     if hit then raise_mismatch else ret ())))"

text \<open>
  \<^verbatim>\<open>for blacklisted in blacklist\<close>: the iterator of a list holds the list object and
  an index, and before each round reads the object as it is then. The loop ends because
  its body leaves the list objects alone.
\<close>

function for_blacklisted :: "nat \<Rightarrow> nat \<Rightarrow> unit stmt" where
  "for_blacklisted r i s =
     (case heap s r of
        None \<Rightarrow> (Inl TypeError, s)
      | Some xs \<Rightarrow>
          if i < length xs
          then (case blacklist_item (xs ! i) s of
                  (Inl e, s') \<Rightarrow> (Inl e, s')
                | (Inr u, s') \<Rightarrow> for_blacklisted r (Suc i) s')
          else (Inr (), s))"
  by pat_completeness auto
termination
proof (relation "measure (\<lambda>(r, i, s). case heap s r of None \<Rightarrow> 0 | Some xs \<Rightarrow> length xs - i)",
    goal_cases)
  case 1
  show ?case by simp
next
  case (2 r i s xs e s' u)
  have "heap (snd (blacklist_item x s)) = heap s" for x
    by (simp add: blacklist_item_def andthen_def store_def convert_def load_def builtin_def
        compare_eq_def raise_mismatch_def ret_def raise_def
        split: sum.splits option.splits prod.splits)
  from this [of "xs ! i"] 2 have "heap s' = heap s"
    by (metis snd_conv)
  with 2 show ?case by simp
qed

declare for_blacklisted.simps [simp del]

definition assert_version_body :: "unit stmt" where
  "assert_version_body =
     andthen (convert ''version'') (\<lambda>_.
     andthen (convert ''minimum'') (\<lambda>_.
     andthen (convert ''maximum'') (\<lambda>_.
     andthen out_of_range (\<lambda>out.
     if out then raise_mismatch
     else andthen (load ''blacklist'') (\<lambda>obj.
          case obj of Ref r \<Rightarrow> for_blacklisted r 0 | _ \<Rightarrow> raise TypeError)))))"

text \<open>
  The call \<^verbatim>\<open>assert_version(version, minimum, maximum, blacklist)\<close>: the body runs in
  a new frame that binds the four parameters, and the caller's frame is back when the
  call returns or raises. The blacklist is given by the address of its list object.
\<close>

definition assert_version_call :: "string \<Rightarrow> string \<Rightarrow> string \<Rightarrow> nat \<Rightarrow> unit stmt" where
  "assert_version_call version minimum maximum blacklist s =
     (let frame = [''version'' \<mapsto> Str version, ''minimum'' \<mapsto> Str minimum,
                   ''maximum'' \<mapsto> Str maximum, ''blacklist'' \<mapsto> Ref blacklist];
          (r, s') = assert_version_body (s\<lparr>locals := frame\<rparr>)
      in (r, s'\<lparr>locals := locals s\<rparr>))"

section \<open>Properties of the built-ins\<close>

lemma split_from_zero: "split_from sep (Some 0) acc s = [rev acc @ s]"
  by (induction s arbitrary: acc) simp_all

lemma item0_split_from_one:
  "item0 (split_from sep (Some (Suc 0)) acc s) = Inr (rev acc @ takeWhile (\<lambda>c. c \<noteq> sep) s)"
  by (induction s arbitrary: acc) (simp_all add: split_from_zero item0_def)

lemma item0_split_once:
  "item0 (split s sep (Some (Suc 0))) = Inr (takeWhile (\<lambda>c. c \<noteq> sep) s)"
  by (simp add: split_def item0_split_from_one)

text \<open>The tuple of a version string is read off its part before the first \<^verbatim>\<open>-\<close>.\<close>

lemma version_tuple_prefix:
  "version_tuple s = map_int (split (numeric_prefix s) CHR ''.'' None)"
  by (simp add: version_tuple_def item0_split_once numeric_prefix_def)

text \<open>Python's comparisons of integer sequences are the lexicographic order on lists.\<close>

lemma seq_gt_iff: "seq_gt xs ys \<longleftrightarrow> ys < xs"
  by (induction xs ys rule: seq_gt.induct) auto

lemma seq_ge_iff: "seq_ge xs ys \<longleftrightarrow> ys \<le> xs"
  by (induction xs ys rule: seq_ge.induct) auto

lemma seq_lt_iff: "seq_lt xs ys \<longleftrightarrow> xs < ys"
  by (induction xs ys rule: seq_lt.induct) auto

section \<open>The version gate\<close>

subsection \<open>Which errors the gate can raise\<close>

text \<open>
  \<^verbatim>\<open>int\<close> raises nothing but ValueError, the tuple of a string fails exactly when the
  string is malformed, and the index \<^verbatim>\<open>[0]\<close> never fails.
\<close>

lemma py_int_error: "py_int p = Inl e \<Longrightarrow> e = ValueError p"
  by (auto simp: py_int_def Let_def split: option.splits)

lemma map_int_error: "map_int ps = Inl e \<Longrightarrow> \<exists>p\<in>set ps. py_int p = Inl e"
  by (induction ps arbitrary: e) (auto split: sum.splits)

lemma map_int_bad: "p \<in> set ps \<Longrightarrow> isl (py_int p) \<Longrightarrow> isl (map_int ps)"
  by (induction ps) (auto split: sum.splits)

lemma version_tuple_error: "version_tuple s = Inl e \<Longrightarrow> \<exists>p. e = ValueError p"
  using map_int_error py_int_error unfolding version_tuple_prefix by blast

lemma malformed_iff_error: "malformed s \<longleftrightarrow> (\<exists>p. version_tuple s = Inl (ValueError p))"
proof
  assume "malformed s"
  then have "isl (version_tuple s)"
    by (auto simp: malformed_def version_tuple_prefix list_ex_iff intro: map_int_bad)
  then obtain e where "version_tuple s = Inl e" by (cases "version_tuple s") auto
  with version_tuple_error show "\<exists>p. version_tuple s = Inl (ValueError p)" by blast
next
  assume "\<exists>p. version_tuple s = Inl (ValueError p)"
  then obtain p where "map_int (split (numeric_prefix s) CHR ''.'' None) = Inl (ValueError p)"
    by (auto simp: version_tuple_prefix)
  from map_int_error [OF this] obtain q
    where "q \<in> set (split (numeric_prefix s) CHR ''.'' None)" and "py_int q = Inl (ValueError p)"
    by blast
  then have "\<exists>q\<in>set (split (numeric_prefix s) CHR ''.'' None). isl (py_int q)"
    by (intro bexI [of _ q]) simp_all
  then show "malformed s"
    by (simp add: malformed_def list_ex_iff)
qed

lemma well_formed_iff: "\<not> malformed s \<longleftrightarrow> (\<exists>t. version_tuple s = Inr t)"
proof (cases "version_tuple s")
  case (Inl e)
  with version_tuple_error [OF Inl] show ?thesis by (auto simp: malformed_iff_error)
next
  case (Inr t)
  then show ?thesis by (simp add: malformed_iff_error)
qed

lemma check_blacklist_skip:
  "\<forall>p\<in>set pre. \<exists>t. version_tuple p = Inr t \<and> t \<noteq> v \<Longrightarrow>
   check_blacklist v lo hi (pre @ rest) = check_blacklist v lo hi rest"
  by (induction pre) auto

lemma check_blacklist_outcomes:
  "check_blacklist v lo hi blacklist = Inr ()
   \<or> is_ValueError (check_blacklist v lo hi blacklist)
   \<or> check_blacklist v lo hi blacklist = Inl (VersionMismatch v lo hi)"
proof (induction blacklist)
  case Nil
  show ?case by simp
next
  case (Cons b bs)
  show ?case
  proof (cases "version_tuple b")
    case (Inl e)
    with version_tuple_error [OF Inl] show ?thesis by (auto simp: is_ValueError_def)
  next
    case (Inr t)
    with Cons show ?thesis by auto
  qed
qed

lemma assert_version_outcomes:
  "assert_version version minimum maximum blacklist = Inr ()
   \<or> is_ValueError (assert_version version minimum maximum blacklist)
   \<or> is_VersionMismatch (assert_version version minimum maximum blacklist)"
proof -
  have ve: "is_ValueError (Inl e :: error + unit)" if "version_tuple s = Inl e" for s e
    using version_tuple_error [OF that] by (auto simp: is_ValueError_def)
  show ?thesis
  proof (cases "version_tuple version")
    case (Inl e) then show ?thesis using ve [OF Inl] by (simp add: assert_version_def)
  next
    case v: (Inr v)
    show ?thesis
    proof (cases "version_tuple minimum")
      case (Inl e) then show ?thesis using ve [OF Inl] v by (simp add: assert_version_def)
    next
      case lo: (Inr lo)
      show ?thesis
      proof (cases "version_tuple maximum")
        case (Inl e) then show ?thesis using ve [OF Inl] v lo by (simp add: assert_version_def)
      next
        case hi: (Inr hi)
        show ?thesis
          using check_blacklist_outcomes [of v lo hi blacklist] v lo hi
          by (auto simp: assert_version_def is_VersionMismatch_def)
      qed
    qed
  qed
qed

subsection \<open>The range and the blacklist\<close>

lemma check_blacklist_all_parsed:
  "\<forall>b\<in>set blacklist. \<exists>t. version_tuple b = Inr t \<Longrightarrow>
   check_blacklist v lo hi blacklist =
     (if \<exists>b\<in>set blacklist. version_tuple b = Inr v then Inl (VersionMismatch v lo hi)
      else Inr ())"
  by (induction blacklist) auto

text \<open>
  Claim C1. When the version, the minimum, the maximum and every blacklist entry have a
  numeric prefix that parses to an integer tuple, \<^verbatim>\<open>assert_version\<close> returns normally
  if and only if minimum \<open>\<le>\<close> version \<open><\<close> maximum in the lexicographic order of the
  tuples and no blacklist entry has the version's tuple; in every other case it raises
  VersionMismatch, with the three tuples. The examples of the claim are the
  instances below: with minimum 0.4.21 and maximum 0.6.0, the version 0.5.0 is
  accepted, 0.6.0 and 0.4.20 are rejected.
\<close>

theorem assert_version_accepts_iff:
  assumes "version_tuple version = Inr v"
    and "version_tuple minimum = Inr lo"
    and "version_tuple maximum = Inr hi"
    and "\<forall>b\<in>set blacklist. \<exists>t. version_tuple b = Inr t"
  shows "assert_version version minimum maximum blacklist =
           (if lo \<le> v \<and> v < hi \<and> (\<forall>b\<in>set blacklist. version_tuple b \<noteq> Inr v)
            then Inr () else Inl (VersionMismatch v lo hi))"
  using assms
  by (auto simp: assert_version_def seq_gt_iff seq_ge_iff check_blacklist_all_parsed)

theorem assert_version_accepts_iff_witness:
  "assert_version ''0.5.0'' ''0.4.21'' ''0.6.0'' [] = Inr ()
   \<and> assert_version ''0.6.0'' ''0.4.21'' ''0.6.0'' [] =
       Inl (VersionMismatch [0, 6, 0] [0, 4, 21] [0, 6, 0])
   \<and> assert_version ''0.4.20'' ''0.4.21'' ''0.6.0'' [] =
       Inl (VersionMismatch [0, 4, 20] [0, 4, 21] [0, 6, 0])
   \<and> assert_version ''0.5.0-rc1'' ''0.4.21'' ''0.6.0'' [''0.5.0''] =
       Inl (VersionMismatch [0, 5, 0] [0, 4, 21] [0, 6, 0])"
proof -
  have v50: "version_tuple ''0.5.0'' = Inr [0, 5, 0]" by code_simp
  have v50rc: "version_tuple ''0.5.0-rc1'' = Inr [0, 5, 0]" by code_simp
  have v60: "version_tuple ''0.6.0'' = Inr [0, 6, 0]" by code_simp
  have v420: "version_tuple ''0.4.20'' = Inr [0, 4, 20]" by code_simp
  have v421: "version_tuple ''0.4.21'' = Inr [0, 4, 21]" by code_simp
  have none: "\<forall>b\<in>set ([] :: string list). \<exists>t. version_tuple b = Inr t" by simp
  have one: "\<forall>b\<in>set [''0.5.0'']. \<exists>t. version_tuple b = Inr t" using v50 by simp
  show ?thesis
    using assert_version_accepts_iff [OF v50 v421 v60 none]
      assert_version_accepts_iff [OF v60 v421 v60 none]
      assert_version_accepts_iff [OF v420 v421 v60 none]
      assert_version_accepts_iff [OF v50rc v421 v60 one] v50
    by simp
qed

subsection \<open>Suffixes are ignored\<close>

lemma version_tuple_cong:
  "numeric_prefix a = numeric_prefix b \<Longrightarrow> version_tuple a = version_tuple b"
  by (simp add: version_tuple_prefix)

lemma check_blacklist_cong:
  "map numeric_prefix bl1 = map numeric_prefix bl2 \<Longrightarrow>
   check_blacklist v lo hi bl1 = check_blacklist v lo hi bl2"
proof (induction bl1 arbitrary: bl2)
  case Nil
  then show ?case by simp
next
  case (Cons b bs)
  then obtain b' bs' where bl2: "bl2 = b' # bs'"
    and hd: "numeric_prefix b = numeric_prefix b'"
    and tl: "map numeric_prefix bs = map numeric_prefix bs'"
    by (cases bl2) auto
  from Cons.IH [OF tl] version_tuple_cong [OF hd] show ?case
    by (simp add: bl2 split: sum.splits)
qed

text \<open>
  Claim C3. The outcome of \<^verbatim>\<open>assert_version\<close> depends only on the part of each
  string before the first \<^verbatim>\<open>-\<close>: two calls whose versions, minimums, maximums and
  blacklist entries agree on these parts have the same outcome, the same return or the
  same exception.
\<close>

theorem assert_version_ignores_suffix:
  assumes "numeric_prefix version1 = numeric_prefix version2"
    and "numeric_prefix minimum1 = numeric_prefix minimum2"
    and "numeric_prefix maximum1 = numeric_prefix maximum2"
    and "map numeric_prefix blacklist1 = map numeric_prefix blacklist2"
  shows "assert_version version1 minimum1 maximum1 blacklist1 =
         assert_version version2 minimum2 maximum2 blacklist2"
  using version_tuple_cong [OF assms(1)] version_tuple_cong [OF assms(2)]
    version_tuple_cong [OF assms(3)] check_blacklist_cong [OF assms(4)]
  by (simp add: assert_version_def split: sum.splits)

theorem assert_version_ignores_suffix_witness:
  "assert_version ''0.5.0'' ''0.4.21-dev'' ''0.6.0'' [''0.5.1-rc2''] =
   assert_version ''0.5.0-rc1'' ''0.4.21'' ''0.6.0-beta-2'' [''0.5.1'']
   \<and> assert_version ''0.5.0-rc1'' ''0.4.21'' ''0.6.0-beta-2'' [''0.5.1''] = Inr ()"
proof -
  have a: "numeric_prefix ''0.5.0'' = numeric_prefix ''0.5.0-rc1''" by (simp add: numeric_prefix_def)
  have b: "numeric_prefix ''0.4.21-dev'' = numeric_prefix ''0.4.21''" by (simp add: numeric_prefix_def)
  have c: "numeric_prefix ''0.6.0'' = numeric_prefix ''0.6.0-beta-2''" by (simp add: numeric_prefix_def)
  have d: "map numeric_prefix [''0.5.1-rc2''] = map numeric_prefix [''0.5.1'']"
    by (simp add: numeric_prefix_def)
  have e: "assert_version ''0.5.0-rc1'' ''0.4.21'' ''0.6.0-beta-2'' [''0.5.1''] = Inr ()"
    by code_simp
  show ?thesis using assert_version_ignores_suffix [OF a b c d] e by simp
qed

subsection \<open>No effect on the state\<close>

lemmas stmt_defs = andthen_def load_def store_def builtin_def ret_def raise_def
  as_str_def as_ints_def

lemma convert_run:
  "locals s name = Some (Str x) \<Longrightarrow>
   convert name s =
     (case version_tuple x of
        Inl e \<Rightarrow> (Inl e, s)
      | Inr t \<Rightarrow> (Inr (), s\<lparr>locals := (locals s)(name \<mapsto> Ints t)\<rparr>))"
  by (simp add: convert_def stmt_defs version_tuple_def split: sum.splits)

lemma raise_mismatch_run:
  "locals s ''version'' = Some (Ints v) \<Longrightarrow> locals s ''minimum'' = Some (Ints lo) \<Longrightarrow>
   locals s ''maximum'' = Some (Ints hi) \<Longrightarrow>
   raise_mismatch s = (Inl (VersionMismatch v lo hi), s)"
  by (simp add: raise_mismatch_def stmt_defs)

lemma out_of_range_run:
  "locals s ''version'' = Some (Ints v) \<Longrightarrow> locals s ''minimum'' = Some (Ints lo) \<Longrightarrow>
   locals s ''maximum'' = Some (Ints hi) \<Longrightarrow>
   out_of_range s = (Inr (seq_gt lo v \<or> seq_ge v hi), s)"
  by (simp add: out_of_range_def compare_gt_def compare_ge_def stmt_defs)

lemma blacklist_item_run:
  assumes "locals s ''version'' = Some (Ints v)" and "locals s ''minimum'' = Some (Ints lo)"
    and "locals s ''maximum'' = Some (Ints hi)"
  shows "blacklist_item x s =
     (case version_tuple x of
        Inl e \<Rightarrow> (Inl e, s\<lparr>locals := (locals s)(''blacklisted'' \<mapsto> Str x)\<rparr>)
      | Inr t \<Rightarrow>
          (if v = t then Inl (VersionMismatch v lo hi) else Inr (),
           s\<lparr>locals := (locals s)(''blacklisted'' \<mapsto> Ints t)\<rparr>))"
proof -
  let ?s1 = "s\<lparr>locals := (locals s)(''blacklisted'' \<mapsto> Str x)\<rparr>"
  have c: "convert ''blacklisted'' ?s1 =
     (case version_tuple x of
        Inl e \<Rightarrow> (Inl e, ?s1)
      | Inr t \<Rightarrow> (Inr (), s\<lparr>locals := (locals s)(''blacklisted'' \<mapsto> Ints t)\<rparr>))"
    by (simp add: convert_run split: sum.splits)
  show ?thesis
  proof (cases "version_tuple x")
    case (Inl e)
    with c show ?thesis by (simp add: blacklist_item_def andthen_def store_def)
  next
    case (Inr t)
    let ?s2 = "s\<lparr>locals := (locals s)(''blacklisted'' \<mapsto> Ints t)\<rparr>"
    have r: "raise_mismatch ?s2 = (Inl (VersionMismatch v lo hi), ?s2)"
      using assms by (intro raise_mismatch_run) simp_all
    from Inr c r assms show ?thesis
      by (simp add: blacklist_item_def andthen_def store_def compare_eq_def load_def ret_def)
  qed
qed

text \<open>
  Every statement of the body leaves the state as it was, up to the local names.
\<close>

lemma andthen_frame:
  assumes "\<And>s L. (snd (m s))\<lparr>locals := L\<rparr> = s\<lparr>locals := L\<rparr>"
    and "\<And>x s L. (snd (f x s))\<lparr>locals := L\<rparr> = s\<lparr>locals := L\<rparr>"
  shows "(snd (andthen m f s))\<lparr>locals := L\<rparr> = s\<lparr>locals := L\<rparr>"
proof (cases "m s")
  case (Pair r s')
  with assms(1) [where s = s and L = L] have s': "s'\<lparr>locals := L\<rparr> = s\<lparr>locals := L\<rparr>" by simp
  show ?thesis
  proof (cases r)
    case (Inl e)
    with Pair s' show ?thesis by (simp add: andthen_def)
  next
    case (Inr x)
    with Pair assms(2) [where x = x and s = s' and L = L] s' show ?thesis by (simp add: andthen_def)
  qed
qed

lemma load_frame: "(snd (load name s))\<lparr>locals := L\<rparr> = s\<lparr>locals := L\<rparr>"
  by (simp add: load_def split: option.splits)

lemma store_frame: "(snd (store name v s))\<lparr>locals := L\<rparr> = s\<lparr>locals := L\<rparr>"
  by (simp add: store_def)

lemma builtin_frame: "(snd (builtin r s))\<lparr>locals := L\<rparr> = s\<lparr>locals := L\<rparr>"
  by (simp add: builtin_def)

lemma ret_frame: "(snd (ret x s))\<lparr>locals := L\<rparr> = s\<lparr>locals := L\<rparr>"
  by (simp add: ret_def)

lemma raise_frame: "(snd (raise e s))\<lparr>locals := L\<rparr> = s\<lparr>locals := L\<rparr>"
  by (simp add: raise_def)

lemmas prim_frame = andthen_frame load_frame store_frame builtin_frame ret_frame raise_frame

lemma convert_frame: "(snd (convert name s))\<lparr>locals := L\<rparr> = s\<lparr>locals := L\<rparr>"
  unfolding convert_def by (intro prim_frame)

lemma raise_mismatch_frame: "(snd (raise_mismatch s))\<lparr>locals := L\<rparr> = s\<lparr>locals := L\<rparr>"
  unfolding raise_mismatch_def by (intro prim_frame)

lemma compare_gt_frame: "(snd (compare_gt a b s))\<lparr>locals := L\<rparr> = s\<lparr>locals := L\<rparr>"
  unfolding compare_gt_def by (intro prim_frame)

lemma compare_ge_frame: "(snd (compare_ge a b s))\<lparr>locals := L\<rparr> = s\<lparr>locals := L\<rparr>"
  unfolding compare_ge_def by (intro prim_frame)

lemma compare_eq_frame: "(snd (compare_eq a b s))\<lparr>locals := L\<rparr> = s\<lparr>locals := L\<rparr>"
  unfolding compare_eq_def by (intro prim_frame)

lemma out_of_range_frame: "(snd (out_of_range s))\<lparr>locals := L\<rparr> = s\<lparr>locals := L\<rparr>"
  unfolding out_of_range_def
  by (intro andthen_frame compare_gt_frame) (simp add: ret_frame compare_ge_frame)

lemma blacklist_item_frame: "(snd (blacklist_item x s))\<lparr>locals := L\<rparr> = s\<lparr>locals := L\<rparr>"
  unfolding blacklist_item_def
  by (intro andthen_frame store_frame convert_frame compare_eq_frame)
    (simp add: ret_frame raise_mismatch_frame)

lemma for_blacklisted_frame:
  "(snd (for_blacklisted r i s))\<lparr>locals := L\<rparr> = s\<lparr>locals := L\<rparr>"
proof (induction r i s rule: for_blacklisted.induct)
  case (1 r i s)
  show ?case
  proof (cases "heap s r")
    case None
    then show ?thesis by (simp add: for_blacklisted.simps [of r i s])
  next
    case (Some xs)
    show ?thesis
    proof (cases "i < length xs")
      case False
      with Some show ?thesis by (simp add: for_blacklisted.simps [of r i s])
    next
      case True
      obtain res s' where step: "blacklist_item (xs ! i) s = (res, s')"
        by (cases "blacklist_item (xs ! i) s")
      with blacklist_item_frame [where x = "xs ! i" and s = s and L = L]
      have s': "s'\<lparr>locals := L\<rparr> = s\<lparr>locals := L\<rparr>" by simp
      show ?thesis
      proof (cases res)
        case (Inl e)
        with Some True step s' show ?thesis by (simp add: for_blacklisted.simps [of r i s])
      next
        case (Inr u)
        from "1.IH" [OF Some True step [symmetric] Inr] s'
        have "(snd (for_blacklisted r (Suc i) s'))\<lparr>locals := L\<rparr> = s\<lparr>locals := L\<rparr>" by simp
        with Some True step Inr show ?thesis by (simp add: for_blacklisted.simps [of r i s])
      qed
    qed
  qed
qed

lemma assert_version_body_frame:
  "(snd (assert_version_body s))\<lparr>locals := L\<rparr> = s\<lparr>locals := L\<rparr>"
  unfolding assert_version_body_def
  by (intro andthen_frame convert_frame out_of_range_frame)
    (simp add: raise_mismatch_frame andthen_frame load_frame for_blacklisted_frame raise_frame
      split: pyval.splits)

lemma assert_version_call_frame:
  "snd (assert_version_call version minimum maximum blacklist s) = s"
  using assert_version_body_frame [where s = "s\<lparr>locals := [''version'' \<mapsto> Str version,
      ''minimum'' \<mapsto> Str minimum, ''maximum'' \<mapsto> Str maximum, ''blacklist'' \<mapsto> Ref blacklist]\<rparr>"
      and L = "locals s"]
  by (auto simp: assert_version_call_def Let_def split: prod.splits)


text \<open>What the statements compute is what the function \<open>assert_version\<close> computes.\<close>

lemma for_blacklisted_value:
  assumes "locals s ''version'' = Some (Ints v)" and "locals s ''minimum'' = Some (Ints lo)"
    and "locals s ''maximum'' = Some (Ints hi)" and "heap s r = Some xs"
  shows "fst (for_blacklisted r i s) = check_blacklist v lo hi (drop i xs)"
  using assms
proof (induction r i s rule: for_blacklisted.induct)
  case (1 r i s)
  note loc = "1.prems"(1-3) and heap = "1.prems"(4)
  show ?case
  proof (cases "i < length xs")
    case False
    with heap show ?thesis by (simp add: for_blacklisted.simps [of r i s])
  next
    case True
    then have d: "drop i xs = xs ! i # drop (Suc i) xs" by (simp add: Cons_nth_drop_Suc)
    note item = blacklist_item_run [OF loc, of "xs ! i"]
    show ?thesis
    proof (cases "version_tuple (xs ! i)")
      case (Inl e)
      with heap True item d show ?thesis by (simp add: for_blacklisted.simps [of r i s])
    next
      case (Inr t)
      show ?thesis
      proof (cases "v = t")
        case True
        with heap \<open>i < length xs\<close> item d Inr show ?thesis
          by (simp add: for_blacklisted.simps [of r i s])
      next
        case False
        let ?s' = "s\<lparr>locals := (locals s)(''blacklisted'' \<mapsto> Ints t)\<rparr>"
        from item Inr False have step: "(Inr (), ?s') = blacklist_item (xs ! i) s" by simp
        have "fst (for_blacklisted r (Suc i) ?s') = check_blacklist v lo hi (drop (Suc i) xs)"
          using loc heap by (intro "1.IH" [OF heap \<open>i < length xs\<close> step refl]) simp_all
        with heap \<open>i < length xs\<close> step [symmetric] d Inr False show ?thesis
          by (simp add: for_blacklisted.simps [of r i s])
      qed
    qed
  qed
qed

lemma assert_version_body_value:
  assumes "locals s ''version'' = Some (Str version)"
    and "locals s ''minimum'' = Some (Str minimum)"
    and "locals s ''maximum'' = Some (Str maximum)"
    and "locals s ''blacklist'' = Some (Ref r)"
    and "heap s r = Some entries"
  shows "fst (assert_version_body s) = assert_version version minimum maximum entries"
proof (cases "version_tuple version")
  case (Inl e)
  with assms(1) show ?thesis
    by (simp add: assert_version_body_def andthen_def convert_run assert_version_def)
next
  case v: (Inr v)
  let ?s1 = "s\<lparr>locals := (locals s)(''version'' \<mapsto> Ints v)\<rparr>"
  have c1: "convert ''version'' s = (Inr (), ?s1)" using assms(1) v by (simp add: convert_run)
  show ?thesis
  proof (cases "version_tuple minimum")
    case (Inl e)
    with assms(2) v c1 show ?thesis
      by (simp add: assert_version_body_def andthen_def convert_run assert_version_def)
  next
    case lo: (Inr lo)
    let ?s2 = "?s1\<lparr>locals := (locals ?s1)(''minimum'' \<mapsto> Ints lo)\<rparr>"
    have c2: "convert ''minimum'' ?s1 = (Inr (), ?s2)" using assms(2) lo by (simp add: convert_run)
    show ?thesis
    proof (cases "version_tuple maximum")
      case (Inl e)
      with assms(3) v lo c1 c2 show ?thesis
        by (simp add: assert_version_body_def andthen_def convert_run assert_version_def)
    next
      case hi: (Inr hi)
      let ?s3 = "?s2\<lparr>locals := (locals ?s2)(''maximum'' \<mapsto> Ints hi)\<rparr>"
      have c3: "convert ''maximum'' ?s2 = (Inr (), ?s3)"
        using assms(3) hi by (simp add: convert_run)
      have l3: "locals ?s3 ''version'' = Some (Ints v)" "locals ?s3 ''minimum'' = Some (Ints lo)"
        "locals ?s3 ''maximum'' = Some (Ints hi)" by simp_all
      have h3: "heap ?s3 r = Some entries" using assms(5) by simp
      have b3: "locals ?s3 ''blacklist'' = Some (Ref r)" using assms(4) by simp
      note range = out_of_range_run [OF l3]
      note mism = raise_mismatch_run [OF l3]
      note loop = for_blacklisted_value [OF l3 h3, of 0]
      have "fst (assert_version_body s) =
          (if seq_gt lo v \<or> seq_ge v hi then Inl (VersionMismatch v lo hi)
           else check_blacklist v lo hi entries)"
        unfolding assert_version_body_def
        using c1 c2 c3 range mism loop b3
        by (simp add: andthen_def load_def)
      with v lo hi show ?thesis by (simp add: assert_version_def)
    qed
  qed
qed

lemma assert_version_call_value:
  assumes "heap s blacklist = Some entries"
  shows "fst (assert_version_call version minimum maximum blacklist s) =
         assert_version version minimum maximum entries"
proof -
  let ?s0 = "s\<lparr>locals := [''version'' \<mapsto> Str version, ''minimum'' \<mapsto> Str minimum,
      ''maximum'' \<mapsto> Str maximum, ''blacklist'' \<mapsto> Ref blacklist]\<rparr>"
  have "fst (assert_version_body ?s0) = assert_version version minimum maximum entries"
    using assms by (intro assert_version_body_value) simp_all
  then show ?thesis
    by (auto simp: assert_version_call_def Let_def split: prod.splits)
qed

text \<open>
  Claim C8. \<^verbatim>\<open>assert_version\<close> has no side effect. The state after the call is the
  state before it, whether the call returns or raises: the global names, the list
  objects, the blacklist among them, the clients and the caller's local names are as
  they were, and no request has been sent. The outcome is that of the function
  \<open>assert_version\<close> of the three strings and the entries of the blacklist, so it is the
  same in any two states that hold these entries; and the call ends by returning or by
  raising ValueError or VersionMismatch.
\<close>

theorem assert_version_pure:
  "snd (assert_version_call version minimum maximum blacklist s) = s
   \<and> requests (snd (assert_version_call version minimum maximum blacklist s)) = requests s
   \<and> (heap s blacklist = Some entries \<longrightarrow>
        fst (assert_version_call version minimum maximum blacklist s) =
          assert_version version minimum maximum entries
        \<and> (fst (assert_version_call version minimum maximum blacklist s) = Inr ()
            \<or> is_ValueError (fst (assert_version_call version minimum maximum blacklist s))
            \<or> is_VersionMismatch (fst (assert_version_call version minimum maximum blacklist s))))
   \<and> (heap s blacklist = Some entries \<and> heap s' blacklist' = Some entries \<longrightarrow>
        fst (assert_version_call version minimum maximum blacklist s) =
        fst (assert_version_call version minimum maximum blacklist' s'))"
  using assert_version_outcomes [of version minimum maximum entries]
  by (simp add: assert_version_call_frame assert_version_call_value)

theorem assert_version_pure_witness:
  "assert_version_call ''0.5.0'' ''0.4.21'' ''0.6.0'' 7
     \<lparr>locals = [''version'' \<mapsto> Str ''caller''], globals = [''VERSION_BLACKLIST'' \<mapsto> Ref 7],
      heap = [7 \<mapsto> [''0.4.22'', ''0.5.0-rc1'']], clients = Map.empty, requests = [''version'']\<rparr> =
   (Inl (VersionMismatch [0, 5, 0] [0, 4, 21] [0, 6, 0]),
     \<lparr>locals = [''version'' \<mapsto> Str ''caller''], globals = [''VERSION_BLACKLIST'' \<mapsto> Ref 7],
      heap = [7 \<mapsto> [''0.4.22'', ''0.5.0-rc1'']], clients = Map.empty, requests = [''version'']\<rparr>)
   \<and> fst (assert_version_call ''0.5.0'' ''0.4.21'' ''0.6.0'' 3
     \<lparr>locals = Map.empty, globals = Map.empty,
      heap = [3 \<mapsto> [''0.4.22'', ''0.5.0-rc1'']], clients = Map.empty, requests = []\<rparr>) =
     Inl (VersionMismatch [0, 5, 0] [0, 4, 21] [0, 6, 0])"
proof -
  let ?s = "\<lparr>locals = [''version'' \<mapsto> Str ''caller''], globals = [''VERSION_BLACKLIST'' \<mapsto> Ref 7],
      heap = [7 \<mapsto> [''0.4.22'', ''0.5.0-rc1'']], clients = Map.empty, requests = [''version'']\<rparr>"
  let ?s' = "\<lparr>locals = Map.empty, globals = Map.empty,
      heap = [3 \<mapsto> [''0.4.22'', ''0.5.0-rc1'']], clients = Map.empty, requests = []\<rparr>"
  have h: "heap ?s 7 = Some [''0.4.22'', ''0.5.0-rc1'']" by simp
  have h': "heap ?s 7 = Some [''0.4.22'', ''0.5.0-rc1'']
      \<and> heap ?s' 3 = Some [''0.4.22'', ''0.5.0-rc1'']" by simp
  have a: "assert_version ''0.5.0'' ''0.4.21'' ''0.6.0'' [''0.4.22'', ''0.5.0-rc1''] =
      Inl (VersionMismatch [0, 5, 0] [0, 4, 21] [0, 6, 0])" by code_simp
  note t = assert_version_pure [of "''0.5.0''" "''0.4.21''" "''0.6.0''" 7 ?s
      "[''0.4.22'', ''0.5.0-rc1'']" ?s' 3]
  from t [THEN conjunct1] t [THEN conjunct2, THEN conjunct2, THEN conjunct1, rule_format, OF h]
    t [THEN conjunct2, THEN conjunct2, THEN conjunct2, rule_format, OF h'] a
  show ?thesis by (simp add: prod_eq_iff)
qed

subsection \<open>Tuples of different lengths\<close>

lemma less_append_Cons: "(v :: int list) < v @ z # zs"
  by (induction v) simp_all

text \<open>
  Claim C10. Tuples of different lengths are compared as lists, lexicographically, and
  a proper prefix is strictly smaller: a version whose tuple is a proper prefix of the
  maximum's passes the test against the maximum, and is accepted when it is not below
  the minimum and not blacklisted. With minimum 0.4.21 and maximum 0.6.0 the version
  0.6 is accepted, and 0.6.0 is rejected.
\<close>

theorem proper_prefix_below_maximum:
  assumes "version_tuple version = Inr v"
    and "version_tuple minimum = Inr lo"
    and "version_tuple maximum = Inr (v @ z # zs)"
    and "lo \<le> v"
    and "\<forall>b\<in>set blacklist. \<exists>t. version_tuple b = Inr t \<and> t \<noteq> v"
  shows "seq_gt (v @ z # zs) v \<and> \<not> seq_ge v (v @ z # zs)
         \<and> assert_version version minimum maximum blacklist = Inr ()"
proof -
  have lt: "v < v @ z # zs" by (rule less_append_Cons)
  have bl: "check_blacklist v lo (v @ z # zs) blacklist = Inr ()"
    using check_blacklist_skip [OF assms(5), of lo "v @ z # zs" "[]"] by simp
  from lt assms(1-4) bl show ?thesis
    by (simp add: assert_version_def seq_gt_iff seq_ge_iff not_le)
qed

theorem proper_prefix_below_maximum_witness:
  "assert_version ''0.6'' ''0.4.21'' ''0.6.0'' [] = Inr ()
   \<and> seq_gt [0, 6, 0] [0, 6] \<and> \<not> seq_ge [0, 6] [0, 6, 0]
   \<and> assert_version ''0.6.0'' ''0.4.21'' ''0.6.0'' [] =
       Inl (VersionMismatch [0, 6, 0] [0, 4, 21] [0, 6, 0])"
proof -
  have v: "version_tuple ''0.6'' = Inr [0, 6]" by code_simp
  have lo: "version_tuple ''0.4.21'' = Inr [0, 4, 21]" by code_simp
  have hi: "version_tuple ''0.6.0'' = Inr ([0, 6] @ 0 # [])" by code_simp
  have le: "[0, 4, 21] \<le> [0, 6 :: int]" by simp
  have bl: "\<forall>b\<in>set ([] :: string list). \<exists>t. version_tuple b = Inr t \<and> t \<noteq> [0, 6]" by simp
  have rej: "assert_version ''0.6.0'' ''0.4.21'' ''0.6.0'' [] =
       Inl (VersionMismatch [0, 6, 0] [0, 4, 21] [0, 6, 0])" by code_simp
  show ?thesis using proper_prefix_below_maximum [OF v lo hi le bl] rej by simp
qed

subsection \<open>Malformed strings\<close>

text \<open>
  Claim C9, as stated, fails for blacklist entries: the blacklist is read only after the
  range test has passed, so a malformed entry is not reached when the version is out of
  range, and the call raises VersionMismatch.
\<close>

theorem blacklist_not_parsed_counterexample:
  "malformed ''banana''
   \<and> assert_version ''0.7.0'' ''0.4.21'' ''0.6.0'' [''banana''] =
       Inl (VersionMismatch [0, 7, 0] [0, 4, 21] [0, 6, 0])
   \<and> \<not> is_ValueError (assert_version ''0.7.0'' ''0.4.21'' ''0.6.0'' [''banana''])"
  by code_simp

text \<open>The loop raises ValueError exactly when it reaches a malformed entry.\<close>

lemma check_blacklist_value_error_iff:
  "is_ValueError (check_blacklist v lo hi blacklist) \<longleftrightarrow>
     (\<exists>pre b post. blacklist = pre @ b # post
        \<and> (\<forall>p\<in>set pre. \<not> malformed p \<and> version_tuple p \<noteq> Inr v) \<and> malformed b)"
proof (induction blacklist)
  case Nil
  show ?case by (simp add: is_ValueError_def)
next
  case (Cons a bs)
  show ?case
  proof (cases "version_tuple a")
    case (Inl e)
    then obtain q where e: "e = ValueError q" using version_tuple_error by blast
    with Inl have bad: "malformed a" by (auto simp: malformed_iff_error)
    have "a # bs = [] @ a # bs \<and> (\<forall>p\<in>set []. \<not> malformed p \<and> version_tuple p \<noteq> Inr v)
        \<and> malformed a"
      using bad by simp
    then have "\<exists>pre b post. a # bs = pre @ b # post
        \<and> (\<forall>p\<in>set pre. \<not> malformed p \<and> version_tuple p \<noteq> Inr v) \<and> malformed b"
      by blast
    moreover from Inl e have "is_ValueError (check_blacklist v lo hi (a # bs))"
      by (simp add: is_ValueError_def)
    ultimately show ?thesis by simp
  next
    case (Inr t)
    then have good: "\<not> malformed a" by (auto simp: well_formed_iff)
    show ?thesis
    proof (cases "v = t")
      case True
      with Inr have lhs: "\<not> is_ValueError (check_blacklist v lo hi (a # bs))"
        by (simp add: is_ValueError_def)
      have "\<not> (\<exists>pre b post. a # bs = pre @ b # post
        \<and> (\<forall>p\<in>set pre. \<not> malformed p \<and> version_tuple p \<noteq> Inr v) \<and> malformed b)"
        using good Inr True by (auto simp: Cons_eq_append_conv)
      with lhs show ?thesis by simp
    next
      case False
      with Inr have step: "check_blacklist v lo hi (a # bs) = check_blacklist v lo hi bs"
        by simp
      have "(\<exists>pre b post. a # bs = pre @ b # post
              \<and> (\<forall>p\<in>set pre. \<not> malformed p \<and> version_tuple p \<noteq> Inr v) \<and> malformed b)
            \<longleftrightarrow> (\<exists>pre b post. bs = pre @ b # post
              \<and> (\<forall>p\<in>set pre. \<not> malformed p \<and> version_tuple p \<noteq> Inr v) \<and> malformed b)"
        (is "?L \<longleftrightarrow> ?R")
      proof
        assume ?L
        then obtain pre b post where d: "a # bs = pre @ b # post"
          and pre: "\<forall>p\<in>set pre. \<not> malformed p \<and> version_tuple p \<noteq> Inr v" and b: "malformed b"
          by blast
        from d good b obtain pre' where "pre = a # pre'" and "bs = pre' @ b # post"
          by (cases pre) auto
        with pre b show ?R by auto
      next
        assume ?R
        then obtain pre b post where d: "bs = pre @ b # post"
          and pre: "\<forall>p\<in>set pre. \<not> malformed p \<and> version_tuple p \<noteq> Inr v" and b: "malformed b"
          by blast
        from d have "a # bs = (a # pre) @ b # post" by simp
        moreover from pre good Inr False
        have "\<forall>p\<in>set (a # pre). \<not> malformed p \<and> version_tuple p \<noteq> Inr v" by auto
        ultimately show ?L using b by blast
      qed
      with step Cons.IH show ?thesis by simp
    qed
  qed
qed

text \<open>
  Claim C9, amended. When the version, the minimum or the maximum is malformed, the call
  raises ValueError. When the three are well formed, the call raises ValueError exactly
  when the version is in range and the blacklist has a malformed entry that is reached:
  every entry before it is well formed and differs from the version. When all the
  strings are well formed, the call returns normally or raises VersionMismatch.
\<close>

theorem assert_version_value_error:
  "(malformed version \<or> malformed minimum \<or> malformed maximum \<longrightarrow>
      is_ValueError (assert_version version minimum maximum blacklist))
   \<and> (version_tuple version = Inr v \<and> version_tuple minimum = Inr lo
        \<and> version_tuple maximum = Inr hi \<longrightarrow>
      is_ValueError (assert_version version minimum maximum blacklist) =
        (lo \<le> v \<and> v < hi
         \<and> (\<exists>pre b post. blacklist = pre @ b # post
              \<and> (\<forall>p\<in>set pre. \<not> malformed p \<and> version_tuple p \<noteq> Inr v) \<and> malformed b)))
   \<and> (\<not> malformed version \<and> \<not> malformed minimum \<and> \<not> malformed maximum
        \<and> (\<forall>b\<in>set blacklist. \<not> malformed b) \<longrightarrow>
      assert_version version minimum maximum blacklist = Inr ()
      \<or> is_VersionMismatch (assert_version version minimum maximum blacklist))"
proof (intro conjI impI)
  assume bad: "malformed version \<or> malformed minimum \<or> malformed maximum"
  show "is_ValueError (assert_version version minimum maximum blacklist)"
  proof (cases "version_tuple version")
    case (Inl e)
    with version_tuple_error [OF Inl] show ?thesis
      by (auto simp: assert_version_def is_ValueError_def)
  next
    case v: (Inr v)
    show ?thesis
    proof (cases "version_tuple minimum")
      case (Inl e)
      with version_tuple_error [OF Inl] v show ?thesis
        by (auto simp: assert_version_def is_ValueError_def)
    next
      case lo: (Inr lo)
      from bad v lo obtain p where "version_tuple maximum = Inl (ValueError p)"
        by (auto simp: malformed_iff_error)
      with v lo show ?thesis by (simp add: assert_version_def is_ValueError_def)
    qed
  qed
next
  assume h: "version_tuple version = Inr v \<and> version_tuple minimum = Inr lo
        \<and> version_tuple maximum = Inr hi"
  show "is_ValueError (assert_version version minimum maximum blacklist) =
        (lo \<le> v \<and> v < hi
         \<and> (\<exists>pre b post. blacklist = pre @ b # post
              \<and> (\<forall>p\<in>set pre. \<not> malformed p \<and> version_tuple p \<noteq> Inr v) \<and> malformed b))"
  proof (cases "lo \<le> v \<and> v < hi")
    case True
    with h have "assert_version version minimum maximum blacklist = check_blacklist v lo hi blacklist"
      by (auto simp: assert_version_def seq_gt_iff seq_ge_iff)
    with True show ?thesis by (simp add: check_blacklist_value_error_iff)
  next
    case False
    with h have "assert_version version minimum maximum blacklist = Inl (VersionMismatch v lo hi)"
      by (auto simp: assert_version_def seq_gt_iff seq_ge_iff)
    with False show ?thesis by (auto simp: is_ValueError_def)
  qed
next
  assume h: "\<not> malformed version \<and> \<not> malformed minimum \<and> \<not> malformed maximum
        \<and> (\<forall>b\<in>set blacklist. \<not> malformed b)"
  then obtain v lo hi where p: "version_tuple version = Inr v" "version_tuple minimum = Inr lo"
    "version_tuple maximum = Inr hi"
    by (auto simp: well_formed_iff)
  from h have "\<forall>b\<in>set blacklist. \<exists>t. version_tuple b = Inr t"
    by (simp add: well_formed_iff)
  from check_blacklist_all_parsed [OF this, of v lo hi] p
  show "assert_version version minimum maximum blacklist = Inr ()
      \<or> is_VersionMismatch (assert_version version minimum maximum blacklist)"
    by (auto simp: assert_version_def is_VersionMismatch_def)
qed

theorem assert_version_value_error_witness:
  "is_ValueError (assert_version ''banana'' ''0.4.21'' ''0.6.0'' [])
   \<and> is_ValueError (assert_version ''0.x.1'' ''0.4.21'' ''0.6.0'' [])
   \<and> is_ValueError (assert_version ''0.5.0'' ''0.4.21'' ''0.6.0'' [''0.4.22'', ''banana'', ''0.5.0''])
   \<and> \<not> is_ValueError (assert_version ''0.5.0'' ''0.4.21'' ''0.6.0'' [''0.5.0'', ''banana''])
   \<and> \<not> is_ValueError (assert_version ''0.7.0'' ''0.4.21'' ''0.6.0'' [''banana''])
   \<and> is_VersionMismatch (assert_version ''0.5.0'' ''0.4.21'' ''0.6.0'' [''0.4.22'', ''0.5.0-rc1''])"
proof -
  have m1: "malformed ''banana'' \<or> malformed ''0.4.21'' \<or> malformed ''0.6.0''" by code_simp
  have m2: "malformed ''0.x.1'' \<or> malformed ''0.4.21'' \<or> malformed ''0.6.0''" by code_simp
  have v: "version_tuple ''0.5.0'' = Inr [0, 5, 0]" by code_simp
  have v7: "version_tuple ''0.7.0'' = Inr [0, 7, 0]" by code_simp
  have lo: "version_tuple ''0.4.21'' = Inr [0, 4, 21]" by code_simp
  have hi: "version_tuple ''0.6.0'' = Inr [0, 6, 0]" by code_simp
  have v422: "\<not> malformed ''0.4.22'' \<and> version_tuple ''0.4.22'' \<noteq> Inr [0, 5, 0]" by code_simp
  have b: "malformed ''banana''" by code_simp
  have p: "version_tuple ''0.5.0'' = Inr [0, 5, 0] \<and> version_tuple ''0.4.21'' = Inr [0, 4, 21]
        \<and> version_tuple ''0.6.0'' = Inr [0, 6, 0]"
    using v lo hi by simp
  have p7: "version_tuple ''0.7.0'' = Inr [0, 7, 0] \<and> version_tuple ''0.4.21'' = Inr [0, 4, 21]
        \<and> version_tuple ''0.6.0'' = Inr [0, 6, 0]"
    using v7 lo hi by simp
  have reached: "\<exists>pre b post. [''0.4.22'', ''banana'', ''0.5.0''] = pre @ b # post
      \<and> (\<forall>p\<in>set pre. \<not> malformed p \<and> version_tuple p \<noteq> Inr [0, 5, 0]) \<and> malformed b"
  proof (intro exI conjI)
    show "[''0.4.22'', ''banana'', ''0.5.0''] = [''0.4.22''] @ ''banana'' # [''0.5.0'']" by simp
    show "\<forall>p\<in>set [''0.4.22'']. \<not> malformed p \<and> version_tuple p \<noteq> Inr [0, 5, 0]"
      using v422 by simp
    show "malformed ''banana''" by (rule b)
  qed
  have not_reached: "\<not> (\<exists>pre b post. [''0.5.0'', ''banana''] = pre @ b # post
      \<and> (\<forall>p\<in>set pre. \<not> malformed p \<and> version_tuple p \<noteq> Inr [0, 5, 0]) \<and> malformed b)"
  proof -
    have "\<not> malformed ''0.5.0''" using v by (auto simp: well_formed_iff)
    with v show ?thesis by (auto simp: Cons_eq_append_conv)
  qed
  have m4: "\<not> malformed ''0.5.0'' \<and> \<not> malformed ''0.4.21'' \<and> \<not> malformed ''0.6.0''
        \<and> (\<forall>b\<in>set [''0.4.22'', ''0.5.0-rc1'']. \<not> malformed b)" by code_simp
  have ne: "assert_version ''0.5.0'' ''0.4.21'' ''0.6.0'' [''0.4.22'', ''0.5.0-rc1''] \<noteq> Inr ()"
    by code_simp
  note t1 = assert_version_value_error [of "''banana''" "''0.4.21''" "''0.6.0''" "[]",
      THEN conjunct1, rule_format, OF m1]
  note t2 = assert_version_value_error [of "''0.x.1''" "''0.4.21''" "''0.6.0''" "[]",
      THEN conjunct1, rule_format, OF m2]
  note t3 = assert_version_value_error [of "''0.5.0''" "''0.4.21''" "''0.6.0''"
      "[''0.4.22'', ''banana'', ''0.5.0'']" "[0, 5, 0]" "[0, 4, 21]" "[0, 6, 0]",
      THEN conjunct2, THEN conjunct1, rule_format, OF p]
  note t4 = assert_version_value_error [of "''0.5.0''" "''0.4.21''" "''0.6.0''"
      "[''0.5.0'', ''banana'']" "[0, 5, 0]" "[0, 4, 21]" "[0, 6, 0]",
      THEN conjunct2, THEN conjunct1, rule_format, OF p]
  note t5 = assert_version_value_error [of "''0.7.0''" "''0.4.21''" "''0.6.0''"
      "[''banana'']" "[0, 7, 0]" "[0, 4, 21]" "[0, 6, 0]",
      THEN conjunct2, THEN conjunct1, rule_format, OF p7]
  note t6 = assert_version_value_error [of "''0.5.0''" "''0.4.21''" "''0.6.0''"
      "[''0.4.22'', ''0.5.0-rc1'']", THEN conjunct2, THEN conjunct2, rule_format, OF m4]
  have c3: "is_ValueError (assert_version ''0.5.0'' ''0.4.21'' ''0.6.0'' [''0.4.22'', ''banana'', ''0.5.0''])"
    using t3 reached by simp
  have c4: "\<not> is_ValueError (assert_version ''0.5.0'' ''0.4.21'' ''0.6.0'' [''0.5.0'', ''banana''])"
    using t4 not_reached by simp
  have c5: "\<not> is_ValueError (assert_version ''0.7.0'' ''0.4.21'' ''0.6.0'' [''banana''])"
    using t5 by simp
  from t1 t2 c3 c4 c5 t6 ne show ?thesis by simp
qed

section \<open>Connecting\<close>

text \<open>
  Claim C2. When the daemon reports a version that \<^verbatim>\<open>assert_version\<close> rejects,
  \<^verbatim>\<open>connect\<close> raises the same exception, VersionMismatch for a version out of the
  range from 0.4.21 to 0.6.0, and returns no client; whenever \<^verbatim>\<open>connect\<close> returns a
  client, the constructor and the version query have succeeded and
  \<^verbatim>\<open>assert_version\<close> has accepted the reported version.
\<close>

theorem connect_version_gate:
  "(new_client = Inr c \<and> version c = Inr reply \<and> reply ''Version'' = Some version_str
      \<and> assert_version version_str VERSION_MINIMUM VERSION_MAXIMUM VERSION_BLACKLIST = Inl e \<longrightarrow>
    connect new_client version = Inl e)
   \<and> (new_client = Inr c \<and> version c = Inr reply \<and> reply ''Version'' = Some version_str
      \<and> version_tuple version_str = Inr v \<and> (v < [0, 4, 21] \<or> [0, 6, 0] \<le> v) \<longrightarrow>
    connect new_client version = Inl (VersionMismatch v [0, 4, 21] [0, 6, 0]))
   \<and> (connect new_client version = Inr c' \<longrightarrow>
    (\<exists>c reply version_str. new_client = Inr c \<and> version c = Inr reply
       \<and> reply ''Version'' = Some version_str
       \<and> assert_version version_str VERSION_MINIMUM VERSION_MAXIMUM VERSION_BLACKLIST = Inr ()))"
proof (intro conjI impI)
  assume "new_client = Inr c \<and> version c = Inr reply \<and> reply ''Version'' = Some version_str
      \<and> assert_version version_str VERSION_MINIMUM VERSION_MAXIMUM VERSION_BLACKLIST = Inl e"
  then show "connect new_client version = Inl e"
    by (simp add: connect_def)
next
  assume h: "new_client = Inr c \<and> version c = Inr reply \<and> reply ''Version'' = Some version_str
      \<and> version_tuple version_str = Inr v \<and> (v < [0, 4, 21] \<or> [0, 6, 0] \<le> v)"
  have lo: "version_tuple VERSION_MINIMUM = Inr [0, 4, 21]"
    unfolding VERSION_MINIMUM_def by code_simp
  have hi: "version_tuple VERSION_MAXIMUM = Inr [0, 6, 0]"
    unfolding VERSION_MAXIMUM_def by code_simp
  from h lo hi
  have "assert_version version_str VERSION_MINIMUM VERSION_MAXIMUM VERSION_BLACKLIST =
          Inl (VersionMismatch v [0, 4, 21] [0, 6, 0])"
    by (auto simp: assert_version_def seq_gt_iff seq_ge_iff)
  with h show "connect new_client version = Inl (VersionMismatch v [0, 4, 21] [0, 6, 0])"
    by (simp add: connect_def)
next
  assume "connect new_client version = Inr c'"
  then show "\<exists>c reply version_str. new_client = Inr c \<and> version c = Inr reply
       \<and> reply ''Version'' = Some version_str
       \<and> assert_version version_str VERSION_MINIMUM VERSION_MAXIMUM VERSION_BLACKLIST = Inr ()"
    by (auto simp: connect_def split: sum.splits option.splits)
qed

theorem connect_version_gate_witness:
  "connect (Inr \<lparr>chunk_size = 4096, http = \<lparr>session = None\<rparr>, workarounds = {}\<rparr>)
     (\<lambda>c. Inr [''Version'' \<mapsto> ''0.7.0'']) = Inl (VersionMismatch [0, 7, 0] [0, 4, 21] [0, 6, 0])
   \<and> connect (Inr \<lparr>chunk_size = 4096, http = \<lparr>session = None\<rparr>, workarounds = {}\<rparr>)
     (\<lambda>c. Inr [''Version'' \<mapsto> ''0.4.20-dev'']) = Inl (VersionMismatch [0, 4, 20] [0, 4, 21] [0, 6, 0])
   \<and> connect (Inr \<lparr>chunk_size = 4096, http = \<lparr>session = None\<rparr>, workarounds = {}\<rparr>)
     (\<lambda>c. Inr [''Version'' \<mapsto> ''0.5.0'']) =
       Inr \<lparr>chunk_size = 4096, http = \<lparr>session = None\<rparr>, workarounds = {}\<rparr>
   \<and> assert_version ''0.5.0'' VERSION_MINIMUM VERSION_MAXIMUM VERSION_BLACKLIST = Inr ()"
proof -
  let ?c = "\<lparr>chunk_size = 4096, http = \<lparr>session = None\<rparr>, workarounds = {}\<rparr>"
  let ?bad = "(\<lambda>c. Inr [''Version'' \<mapsto> ''0.7.0'']) :: client \<Rightarrow> error + (string \<rightharpoonup> string)"
  let ?old = "(\<lambda>c. Inr [''Version'' \<mapsto> ''0.4.20-dev'']) :: client \<Rightarrow> error + (string \<rightharpoonup> string)"
  let ?good = "(\<lambda>c. Inr [''Version'' \<mapsto> ''0.5.0'']) :: client \<Rightarrow> error + (string \<rightharpoonup> string)"
  have rej: "assert_version ''0.7.0'' VERSION_MINIMUM VERSION_MAXIMUM VERSION_BLACKLIST =
      Inl (VersionMismatch [0, 7, 0] [0, 4, 21] [0, 6, 0])" by code_simp
  have h1: "(Inr ?c :: error + client) = Inr ?c \<and> ?bad ?c = Inr [''Version'' \<mapsto> ''0.7.0'']
      \<and> [''Version'' \<mapsto> ''0.7.0''] ''Version'' = Some ''0.7.0''
      \<and> assert_version ''0.7.0'' VERSION_MINIMUM VERSION_MAXIMUM VERSION_BLACKLIST =
          Inl (VersionMismatch [0, 7, 0] [0, 4, 21] [0, 6, 0])"
    using rej by simp
  have old: "version_tuple ''0.4.20-dev'' = Inr [0, 4, 20]" by code_simp
  have h2: "(Inr ?c :: error + client) = Inr ?c \<and> ?old ?c = Inr [''Version'' \<mapsto> ''0.4.20-dev'']
      \<and> [''Version'' \<mapsto> ''0.4.20-dev''] ''Version'' = Some ''0.4.20-dev''
      \<and> version_tuple ''0.4.20-dev'' = Inr [0, 4, 20]
      \<and> ([0, 4, 20] < [0, 4, 21 :: int] \<or> [0, 6, 0] \<le> [0, 4, 20 :: int])"
    using old by simp
  have acc: "assert_version ''0.5.0'' VERSION_MINIMUM VERSION_MAXIMUM VERSION_BLACKLIST = Inr ()"
    by code_simp
  have v: "version_tuple ''0.5.0'' = Inr [0, 5, 0]" by code_simp
  have h3: "connect (Inr ?c) ?good = Inr ?c"
    using acc v by (simp add: connect_def)
  note t1 = connect_version_gate [of "Inr ?c" ?c ?bad "[''Version'' \<mapsto> ''0.7.0'']" "''0.7.0''"
      "VersionMismatch [0, 7, 0] [0, 4, 21] [0, 6, 0]", THEN conjunct1, rule_format, OF h1]
  note t2 = connect_version_gate [of "Inr ?c" ?c ?old "[''Version'' \<mapsto> ''0.4.20-dev'']"
      "''0.4.20-dev''" _ "[0, 4, 20]", THEN conjunct2, THEN conjunct1, rule_format, OF h2]
  note t3 = connect_version_gate [of "Inr ?c" _ ?good _ _ _ _ ?c,
      THEN conjunct2, THEN conjunct2, rule_format, OF h3]
  from t1 t2 t3 h3 acc show ?thesis by simp
qed

section \<open>Sessions\<close>

text \<open>
  Claim C4. \<^verbatim>\<open>close\<close> is idempotent: on a client with no open session it changes
  nothing, a second \<^verbatim>\<open>close\<close> changes nothing, and opening a session and closing
  twice gives the state of closing once.
\<close>

theorem Client_close_idempotent:
  "(session (http c) = None \<longrightarrow> Client_close c = c)
   \<and> Client_close (Client_close c) = Client_close c
   \<and> Client_close (Client_close (Client_enter h c)) = Client_close (Client_enter h c)"
  by (simp add: Client_close_def Client_enter_def close_session_def open_session_def
      split: option.splits)

theorem Client_close_idempotent_witness:
  "Client_close \<lparr>chunk_size = 4096, http = \<lparr>session = None\<rparr>, workarounds = {}\<rparr> =
     \<lparr>chunk_size = 4096, http = \<lparr>session = None\<rparr>, workarounds = {}\<rparr>"
proof -
  let ?c = "\<lparr>chunk_size = 4096, http = \<lparr>session = None\<rparr>, workarounds = {}\<rparr>"
  have "session (http ?c) = None" by simp
  with Client_close_idempotent [of ?c, THEN conjunct1] show ?thesis by simp
qed

text \<open>
  Claim C5. \<^verbatim>\<open>__exit__\<close> calls \<^verbatim>\<open>close\<close> whatever its arguments are, for every
  exception type and for \<^verbatim>\<open>None\<close>; the session opened by \<^verbatim>\<open>__enter__\<close> is closed
  by it; and after a \<^verbatim>\<open>with\<close> statement no session is open, whether the body
  ended normally or raised, the body's outcome being passed on.
\<close>

theorem Client_exit_always_closes:
  "Client_exit c exc_type exc_value traceback = (Client_close c, False)
   \<and> session (http (fst (Client_exit (Client_enter h c) exc_type exc_value traceback))) = None
   \<and> session (http (snd (with_client h body c))) = None
   \<and> fst (with_client h body c) = map_sum id Some (fst (body (Client_enter h c)))"
  by (simp add: Client_exit_def Client_close_def Client_enter_def close_session_def
      open_session_def with_client_def Let_def split: option.splits prod.splits sum.splits)

end
